theory Spec2Isabelle
  imports Main "HOL-Library.Word"
begin

section \<open>Strings and identifiers\<close>

text \<open>
  A JavaScript string is a sequence of 16-bit code units; \<open>.length\<close> counts them.
  \<open>js\<close> writes an ASCII literal of the source as such a sequence.
\<close>

type_synonym jstring = "16 word list"

definition js :: "string \<Rightarrow> jstring" where
  "js s = map (\<lambda>c. of_nat (of_char c)) s"

text \<open>
  The driver casts the route parameter \<open>req.params.id\<close> to an ObjectId before it
  queries; the cast raises on a string that is not an identifier. The canonical string
  form of an ObjectId is modelled: exactly 24 hexadecimal digits, upper or lower case.
  Identifiers are the numbers these digits denote.
\<close>

type_synonym oid = nat

definition hex_digit :: "16 word \<Rightarrow> nat option" where
  "hex_digit c =
     (if 0x30 \<le> c \<and> c \<le> 0x39 then Some (unat c - 0x30)
      else if 0x61 \<le> c \<and> c \<le> 0x66 then Some (unat c - 0x61 + 10)
      else if 0x41 \<le> c \<and> c \<le> 0x46 then Some (unat c - 0x41 + 10)
      else None)"

fun parse_hex :: "nat \<Rightarrow> jstring \<Rightarrow> nat option" where
  "parse_hex acc [] = Some acc"
| "parse_hex acc (c # cs) =
     (case hex_digit c of None \<Rightarrow> None | Some d \<Rightarrow> parse_hex (16 * acc + d) cs)"

definition cast_id :: "jstring \<Rightarrow> oid option" where
  "cast_id s = (if length s = 24 then parse_hex 0 s else None)"

section \<open>The user schema (models/User.js)\<close>

text \<open>
  The paths of a user document: the identifier \<open>_id\<close>, which the mapper adds to every
  schema, and the three declared paths. A path fails one of its validators, or the
  cast to its type.
\<close>

datatype field = Id | Username | Email | Password

datatype rule = Cast | Required | MinLength | MaxLength | Match

text \<open>
  The email pattern \<open>/\S+@\S+\.\S+/\<close> is not anchored: \<open>test\<close> succeeds when some
  substring matches. \<open>\S\<close> is any code unit that is not JavaScript white space.
\<close>

definition is_space :: "16 word \<Rightarrow> bool" where
  "is_space c \<longleftrightarrow>
     c \<in> set [0x09, 0x0A, 0x0B, 0x0C, 0x0D, 0x20, 0xA0, 0x1680,
              0x2028, 0x2029, 0x202F, 0x205F, 0x3000, 0xFEFF]
     \<or> (0x2000 \<le> c \<and> c \<le> 0x200A)"

definition nonspace :: "16 word \<Rightarrow> bool" where
  "nonspace c \<longleftrightarrow> \<not> is_space c"

text \<open>\<open>dot_tail s\<close>: a prefix of \<open>s\<close> matches \<open>\.\S+\<close>.\<close>

fun dot_tail :: "jstring \<Rightarrow> bool" where
  "dot_tail (c # d # _) = (c = 0x2E \<and> nonspace d)"
| "dot_tail _ = False"

text \<open>\<open>after_at s\<close>: a prefix of \<open>s\<close> matches \<open>\S+\.\S+\<close>.\<close>

fun after_at :: "jstring \<Rightarrow> bool" where
  "after_at [] = False"
| "after_at (c # cs) = (nonspace c \<and> (dot_tail cs \<or> after_at cs))"

text \<open>\<open>email_match s\<close>: some substring of \<open>s\<close> matches \<open>\S+@\S+\.\S+\<close>.\<close>

fun email_match :: "jstring \<Rightarrow> bool" where
  "email_match (c # d # cs) =
     ((nonspace c \<and> d = 0x40 \<and> after_at cs) \<or> email_match (d # cs))"
| "email_match _ = False"

text \<open>
  The three declared paths of a request body: each is absent or carries a string. The
  \<open>_id\<close> key of a body is kept beside the payload: Create reads it, and Update is
  modelled on bodies that set declared paths only.
\<close>

record payload =
  p_username :: "jstring option"
  p_email :: "jstring option"
  p_password :: "jstring option"

record user =
  uid :: oid
  username :: jstring
  email :: jstring
  password :: jstring

text \<open>
  The validators of one path run in the order required, minlength, maxlength, match;
  the first one that fails is the error of the path. The length and match validators
  accept an absent value; \<open>match\<close> accepts the empty string.
\<close>

definition required_ok :: "jstring option \<Rightarrow> bool" where
  "required_ok v = (case v of None \<Rightarrow> False | Some s \<Rightarrow> s \<noteq> [])"

definition minlength_ok :: "nat \<Rightarrow> jstring option \<Rightarrow> bool" where
  "minlength_ok n v = (case v of None \<Rightarrow> True | Some s \<Rightarrow> n \<le> length s)"

definition maxlength_ok :: "nat \<Rightarrow> jstring option \<Rightarrow> bool" where
  "maxlength_ok n v = (case v of None \<Rightarrow> True | Some s \<Rightarrow> length s \<le> n)"

definition match_ok :: "jstring option \<Rightarrow> bool" where
  "match_ok v = (case v of None \<Rightarrow> True | Some s \<Rightarrow> s = [] \<or> email_match s)"

definition userSchema :: "field \<Rightarrow> jstring option \<Rightarrow> (rule \<times> bool) list" where
  "userSchema f v =
     (case f of
        Id \<Rightarrow> []
      | Username \<Rightarrow> [(Required, required_ok v), (MinLength, minlength_ok 3 v),
                     (MaxLength, maxlength_ok 50 v)]
      | Email \<Rightarrow> [(Required, required_ok v), (Match, match_ok v)]
      | Password \<Rightarrow> [(Required, required_ok v), (MinLength, minlength_ok 6 v)])"

fun first_failure :: "(rule \<times> bool) list \<Rightarrow> rule option" where
  "first_failure [] = None"
| "first_failure ((r, ok) # rs) = (if ok then first_failure rs else Some r)"

definition validate_path :: "field \<Rightarrow> jstring option \<Rightarrow> (field \<times> rule) list" where
  "validate_path f v =
     (case first_failure (userSchema f v) of None \<Rightarrow> [] | Some r \<Rightarrow> [(f, r)])"

text \<open>
  Update validation, run by \<open>findByIdAndUpdate\<close> under \<open>runValidators\<close>: only the
  paths the update sets.
\<close>

definition validate_set :: "field \<Rightarrow> jstring option \<Rightarrow> (field \<times> rule) list" where
  "validate_set f v = (case v of None \<Rightarrow> [] | Some s \<Rightarrow> validate_path f (Some s))"

definition validate_update :: "payload \<Rightarrow> (field \<times> rule) list" where
  "validate_update p =
     validate_set Username (p_username p) @ validate_set Email (p_email p)
       @ validate_set Password (p_password p)"

text \<open>
  Document validation, run by \<open>save\<close>: every path of the schema. The required paths
  the document does not set are validated first, last declared first; then the paths
  it sets, in the order they were set, which the payload fixes as the schema's order.
\<close>

definition validate_unset :: "field \<Rightarrow> jstring option \<Rightarrow> (field \<times> rule) list" where
  "validate_unset f v = (case v of None \<Rightarrow> validate_path f None | Some s \<Rightarrow> [])"

definition validate :: "payload \<Rightarrow> (field \<times> rule) list" where
  "validate p =
     validate_unset Password (p_password p) @ validate_unset Email (p_email p)
       @ validate_unset Username (p_username p) @ validate_update p"

section \<open>The storage layer\<close>

text \<open>
  The collection of user documents, in storage order. \<open>flt\<close> is the state of the
  connection during one call: \<open>Some m\<close> when the storage layer fails with message
  \<open>m\<close> instead of answering.
\<close>

record store =
  docs :: "user list"

type_synonym fault = "string option"

datatype db_error =
    CastError jstring
  | ValidationError "(field \<times> rule) list"
  | DuplicateId oid
  | DuplicateKey jstring
  | StorageFault string

definition empty_store :: store where
  "empty_store = \<lparr>docs = []\<rparr>"

definition fields_of :: "user \<Rightarrow> payload" where
  "fields_of d =
     \<lparr>p_username = Some (username d), p_email = Some (email d),
      p_password = Some (password d)\<rparr>"

definition new_user :: "oid \<Rightarrow> payload \<Rightarrow> user" where
  "new_user i p =
     \<lparr>uid = i, username = the (p_username p), email = the (p_email p),
      password = the (p_password p)\<rparr>"

text \<open>
  \<open>new User(req.body)\<close>: the mapper generates an identifier \<open>g\<close> for the new
  document; an \<open>_id\<close> in the body replaces it when the cast to an identifier succeeds,
  and is recorded as a cast error of the path \<open>_id\<close> when it fails.
\<close>

definition new_id :: "oid \<Rightarrow> jstring option \<Rightarrow> oid" where
  "new_id g bid =
     (case bid of
        None \<Rightarrow> g
      | Some s \<Rightarrow> (case cast_id s of None \<Rightarrow> g | Some i \<Rightarrow> i))"

definition id_errors :: "jstring option \<Rightarrow> (field \<times> rule) list" where
  "id_errors bid =
     (case bid of
        None \<Rightarrow> []
      | Some s \<Rightarrow> (case cast_id s of None \<Rightarrow> [(Id, Cast)] | Some i \<Rightarrow> []))"

text \<open>
  \<open>save\<close>: report the cast error and the validation errors of the document, else
  insert it; the index on \<open>_id\<close> rejects the insert when a stored document has the
  same identifier, and the unique index on \<open>email\<close> when one has the same email.
  \<open>new_user\<close> is reached only after validation, where all three paths are present.
\<close>

definition save ::
  "fault \<Rightarrow> oid \<Rightarrow> store \<Rightarrow> jstring option \<Rightarrow> payload \<Rightarrow> db_error + user \<times> store" where
  "save flt g st bid p =
     (if id_errors bid @ validate p \<noteq> []
        then Inl (ValidationError (id_errors bid @ validate p))
      else case flt of
        Some m \<Rightarrow> Inl (StorageFault m)
      | None \<Rightarrow>
          let u = new_user (new_id g bid) p in
          if uid u \<in> set (map uid (docs st)) then Inl (DuplicateId (uid u))
          else if email u \<in> set (map email (docs st)) then Inl (DuplicateKey (email u))
          else Inr (u, st\<lparr>docs := docs st @ [u]\<rparr>))"

definition find_all :: "fault \<Rightarrow> store \<Rightarrow> db_error + user list" where
  "find_all flt st = (case flt of Some m \<Rightarrow> Inl (StorageFault m) | None \<Rightarrow> Inr (docs st))"

definition lookup :: "oid \<Rightarrow> user list \<Rightarrow> user option" where
  "lookup i ds = find (\<lambda>d. uid d = i) ds"

definition findById :: "fault \<Rightarrow> store \<Rightarrow> jstring \<Rightarrow> db_error + user option" where
  "findById flt st s =
     (case cast_id s of
        None \<Rightarrow> Inl (CastError s)
      | Some i \<Rightarrow>
          (case flt of
             Some m \<Rightarrow> Inl (StorageFault m)
           | None \<Rightarrow> Inr (lookup i (docs st))))"

definition merge_fields :: "user \<Rightarrow> payload \<Rightarrow> user" where
  "merge_fields d p =
     d\<lparr>username := (case p_username p of None \<Rightarrow> username d | Some s \<Rightarrow> s),
       email := (case p_email p of None \<Rightarrow> email d | Some s \<Rightarrow> s),
       password := (case p_password p of None \<Rightarrow> password d | Some s \<Rightarrow> s)\<rparr>"

fun replace_first :: "oid \<Rightarrow> user \<Rightarrow> user list \<Rightarrow> user list" where
  "replace_first i d' [] = []"
| "replace_first i d' (d # ds) = (if uid d = i then d' # ds else d # replace_first i d' ds)"

fun remove_first :: "oid \<Rightarrow> user list \<Rightarrow> user list" where
  "remove_first i [] = []"
| "remove_first i (d # ds) = (if uid d = i then ds else d # remove_first i ds)"

definition email_taken :: "oid \<Rightarrow> jstring \<Rightarrow> user list \<Rightarrow> bool" where
  "email_taken i e ds = list_ex (\<lambda>d. uid d \<noteq> i \<and> email d = e) ds"

definition update_conflict :: "oid \<Rightarrow> payload \<Rightarrow> user list \<Rightarrow> bool" where
  "update_conflict i p ds = (case p_email p of None \<Rightarrow> False | Some e \<Rightarrow> email_taken i e ds)"

text \<open>
  \<open>findByIdAndUpdate\<close> with \<open>new: true, runValidators: true\<close>: cast the identifier,
  validate the paths the update sets, then update the first document with that
  identifier in one write and return it as updated; the unique index rejects the write
  when the update sets an email that another document holds.
\<close>

definition findByIdAndUpdate ::
  "fault \<Rightarrow> store \<Rightarrow> jstring \<Rightarrow> payload \<Rightarrow> db_error + user option \<times> store" where
  "findByIdAndUpdate flt st s p =
     (case cast_id s of
        None \<Rightarrow> Inl (CastError s)
      | Some i \<Rightarrow>
          if validate_update p \<noteq> [] then Inl (ValidationError (validate_update p))
          else case flt of
            Some m \<Rightarrow> Inl (StorageFault m)
          | None \<Rightarrow>
              (case lookup i (docs st) of
                 None \<Rightarrow> Inr (None, st)
               | Some d \<Rightarrow>
                   let d' = merge_fields d p in
                   if update_conflict i p (docs st) then Inl (DuplicateKey (email d'))
                   else Inr (Some d', st\<lparr>docs := replace_first i d' (docs st)\<rparr>)))"

definition findByIdAndDelete ::
  "fault \<Rightarrow> store \<Rightarrow> jstring \<Rightarrow> db_error + user option \<times> store" where
  "findByIdAndDelete flt st s =
     (case cast_id s of
        None \<Rightarrow> Inl (CastError s)
      | Some i \<Rightarrow>
          (case flt of
             Some m \<Rightarrow> Inl (StorageFault m)
           | None \<Rightarrow>
               (case lookup i (docs st) of
                  None \<Rightarrow> Inr (None, st)
                | Some d \<Rightarrow> Inr (Some d, st\<lparr>docs := remove_first i (docs st)\<rparr>))))"

section \<open>The route handlers (routes/users.js)\<close>

text \<open>
  A handler answers with a status and a JSON body, or its promise is rejected with no
  response sent (\<open>Unhandled\<close>). \<open>ErrorOf e\<close> is the body \<open>{error: err.message}\<close> for
  the error \<open>e\<close> the storage layer raised; \<open>ErrorBody\<close> and \<open>MsgBody\<close> carry the
  fixed texts of the source.
\<close>

datatype body =
    UserDoc user
  | UserList "user list"
  | ErrorOf db_error
  | ErrorBody string
  | MsgBody string
  | TextBody string
  | NoRoute

datatype outcome = Resp nat body | Unhandled db_error

fun status :: "outcome \<Rightarrow> nat option" where
  "status (Resp n b) = Some n"
| "status (Unhandled e) = None"

definition post_user ::
  "fault \<Rightarrow> oid \<Rightarrow> store \<Rightarrow> jstring option \<Rightarrow> payload \<Rightarrow> outcome \<times> store" where
  "post_user flt g st bid p =
     (case save flt g st bid p of
        Inr (u, st') \<Rightarrow> (Resp 201 (UserDoc u), st')
      | Inl err \<Rightarrow> (Resp 400 (ErrorOf err), st))"

definition list_users :: "fault \<Rightarrow> store \<Rightarrow> outcome \<times> store" where
  "list_users flt st =
     (case find_all flt st of
        Inr us \<Rightarrow> (Resp 200 (UserList us), st)
      | Inl err \<Rightarrow> (Unhandled err, st))"

definition get_user :: "fault \<Rightarrow> store \<Rightarrow> jstring \<Rightarrow> outcome \<times> store" where
  "get_user flt st s =
     (case findById flt st s of
        Inr None \<Rightarrow> (Resp 404 (ErrorBody ''User not found''), st)
      | Inr (Some u) \<Rightarrow> (Resp 200 (UserDoc u), st)
      | Inl err \<Rightarrow> (Resp 400 (ErrorBody ''Invalid user ID''), st))"

definition put_user :: "fault \<Rightarrow> store \<Rightarrow> jstring \<Rightarrow> payload \<Rightarrow> outcome \<times> store" where
  "put_user flt st s p =
     (case findByIdAndUpdate flt st s p of
        Inr (None, st') \<Rightarrow> (Resp 404 (ErrorBody ''User not found''), st')
      | Inr (Some u, st') \<Rightarrow> (Resp 200 (UserDoc u), st')
      | Inl err \<Rightarrow> (Resp 400 (ErrorOf err), st))"

definition delete_user :: "fault \<Rightarrow> store \<Rightarrow> jstring \<Rightarrow> outcome \<times> store" where
  "delete_user flt st s =
     (case findByIdAndDelete flt st s of
        Inr (None, st') \<Rightarrow> (Resp 404 (ErrorBody ''User not found''), st')
      | Inr (Some u, st') \<Rightarrow> (Resp 200 (MsgBody ''Deleted successfully''), st')
      | Inl err \<Rightarrow> (Resp 400 (ErrorBody ''Invalid user ID''), st))"

section \<open>The server (server.js)\<close>

datatype verb = GET | POST | PUT | DELETE | PATCH

datatype route = Create | ListAll | GetOne jstring | Update jstring | Delete jstring

datatype target = Liveness | UsersRoute route

text \<open>
  The route table of a resource router; the users router and the groups router declare
  the same five routes. A path is the list of its non-empty segments, here the ones
  after the mount point.
\<close>

fun router :: "verb \<Rightarrow> jstring list \<Rightarrow> route option" where
  "router POST [] = Some Create"
| "router GET [] = Some ListAll"
| "router GET [s] = Some (GetOne s)"
| "router PUT [s] = Some (Update s)"
| "router DELETE [s] = Some (Delete s)"
| "router _ _ = None"

text \<open>Route matching ignores the case of ASCII letters.\<close>

definition lower :: "16 word \<Rightarrow> 16 word" where
  "lower c = (if 0x41 \<le> c \<and> c \<le> 0x5A then c + 0x20 else c)"

text \<open>
  The application: \<open>app.get('/')\<close> and \<open>app.use('/users', userRoutes)\<close>. The
  groups router is required by no file and mounted nowhere.
\<close>

definition app :: "verb \<Rightarrow> jstring list \<Rightarrow> target option" where
  "app m segs =
     (case segs of
        [] \<Rightarrow> (if m = GET then Some Liveness else None)
      | seg # rest \<Rightarrow>
          if map lower seg = js ''users'' then map_option UsersRoute (router m rest)
          else None)"

text \<open>
  A request: the verb, the path, and the body as its \<open>_id\<close> key and its declared
  paths. \<open>g\<close> is the identifier the mapper generates while the request is served.
\<close>

record request =
  rq_verb :: verb
  rq_path :: "jstring list"
  rq_id :: "jstring option"
  rq_body :: payload

definition serve :: "fault \<Rightarrow> oid \<Rightarrow> store \<Rightarrow> request \<Rightarrow> outcome \<times> store" where
  "serve flt g st rq =
     (case app (rq_verb rq) (rq_path rq) of
        None \<Rightarrow> (Resp 404 NoRoute, st)
      | Some Liveness \<Rightarrow> (Resp 200 (TextBody ''API is running''), st)
      | Some (UsersRoute Create) \<Rightarrow> post_user flt g st (rq_id rq) (rq_body rq)
      | Some (UsersRoute ListAll) \<Rightarrow> list_users flt st
      | Some (UsersRoute (GetOne s)) \<Rightarrow> get_user flt st s
      | Some (UsersRoute (Update s)) \<Rightarrow> put_user flt st s (rq_body rq)
      | Some (UsersRoute (Delete s)) \<Rightarrow> delete_user flt st s)"

text \<open>The stores the service can be in: everything the handlers produce from empty.\<close>

inductive reachable :: "store \<Rightarrow> bool" where
  init: "reachable empty_store"
| step: "reachable st \<Longrightarrow> reachable (snd (serve flt g st rq))"

section \<open>Properties of stores and payloads\<close>

text \<open>
  What every stored collection satisfies: identifiers are distinct, emails are
  distinct, and every document passes document validation.
\<close>

definition store_inv :: "store \<Rightarrow> bool" where
  "store_inv st \<longleftrightarrow>
     distinct (map uid (docs st)) \<and> distinct (map email (docs st))
     \<and> list_all (\<lambda>d. validate (fields_of d) = []) (docs st)"

text \<open>
  The field rules in the words of the specification: username present with length 3 to
  50, email present and matching the pattern, password present with length at least 6.
\<close>

definition field_rules_ok :: "payload \<Rightarrow> bool" where
  "field_rules_ok p \<longleftrightarrow>
     (case p_username p of None \<Rightarrow> False | Some u \<Rightarrow> 3 \<le> length u \<and> length u \<le> 50)
     \<and> (case p_email p of None \<Rightarrow> False | Some e \<Rightarrow> email_match e)
     \<and> (case p_password p of None \<Rightarrow> False | Some w \<Rightarrow> 6 \<le> length w)"

definition email_stored :: "store \<Rightarrow> payload \<Rightarrow> bool" where
  "email_stored st p =
     (case p_email p of None \<Rightarrow> False | Some e \<Rightarrow> e \<in> set (map email (docs st)))"

text \<open>
  The identifier of a new document can be used: the body's \<open>_id\<close> when it carries one,
  else the generated identifier, is well formed and no stored document has it.
\<close>

definition id_usable :: "store \<Rightarrow> oid \<Rightarrow> jstring option \<Rightarrow> bool" where
  "id_usable st g bid =
     (case bid of
        None \<Rightarrow> g \<notin> set (map uid (docs st))
      | Some s \<Rightarrow>
          (case cast_id s of None \<Rightarrow> False | Some i \<Rightarrow> i \<notin> set (map uid (docs st))))"

text \<open>
  The request of the specification's scenario and the store it produces from empty,
  with the identifiers that store knows and does not know.
\<close>

definition john :: payload where
  "john =
     \<lparr>p_username = Some (js ''john_doe''), p_email = Some (js ''john@example.com''),
      p_password = Some (js ''secret123'')\<rparr>"

definition john_doc :: user where
  "john_doc =
     \<lparr>uid = 0, username = js ''john_doe'', email = js ''john@example.com'',
      password = js ''secret123''\<rparr>"

definition only_username :: "jstring \<Rightarrow> payload" where
  "only_username u = \<lparr>p_username = Some u, p_email = None, p_password = None\<rparr>"

definition empty_payload :: payload where
  "empty_payload = \<lparr>p_username = None, p_email = None, p_password = None\<rparr>"

definition store1 :: store where
  "store1 = \<lparr>docs = [john_doc]\<rparr>"

definition jane :: payload where
  "jane =
     \<lparr>p_username = Some (js ''jane_doe''), p_email = Some (js ''jane@example.com''),
      p_password = Some (js ''hunter22'')\<rparr>"

definition jane_doc :: user where
  "jane_doc =
     \<lparr>uid = 1, username = js ''jane_doe'', email = js ''jane@example.com'',
      password = js ''hunter22''\<rparr>"

definition store2 :: store where
  "store2 = \<lparr>docs = [john_doc, jane_doc]\<rparr>"

definition oid0 :: jstring where
  "oid0 = js ''000000000000000000000000''"

definition oid_unknown :: jstring where
  "oid_unknown = js ''00000000000000000000000A''"

definition supplied :: "payload \<Rightarrow> field \<Rightarrow> bool" where
  "supplied p f =
     (case f of Id \<Rightarrow> False | Username \<Rightarrow> p_username p \<noteq> None
      | Email \<Rightarrow> p_email p \<noteq> None | Password \<Rightarrow> p_password p \<noteq> None)"

text \<open>Every field the payload supplies satisfies the rules of its own path.\<close>

definition supplied_rules_ok :: "payload \<Rightarrow> bool" where
  "supplied_rules_ok p \<longleftrightarrow>
     (case p_username p of None \<Rightarrow> True | Some u \<Rightarrow> 3 \<le> length u \<and> length u \<le> 50)
     \<and> (case p_email p of None \<Rightarrow> True | Some e \<Rightarrow> email_match e)
     \<and> (case p_password p of None \<Rightarrow> True | Some w \<Rightarrow> 6 \<le> length w)"

section \<open>The email pattern\<close>

text \<open>
  \<open>email_match\<close> accepts exactly the strings with a substring in the language of
  \<open>\S+@\S+\.\S+\<close>: a non-space unit, \<open>@\<close>, one or more non-space units, a dot and a
  non-space unit, anywhere in the string.
\<close>

lemma dot_tail_iff: "dot_tail s \<longleftrightarrow> (\<exists>d post. s = 0x2E # d # post \<and> nonspace d)"
  by (cases s rule: dot_tail.cases) auto

lemma after_at_intro:
  "b \<noteq> [] \<Longrightarrow> list_all nonspace b \<Longrightarrow> nonspace d \<Longrightarrow> after_at (b @ 0x2E # d # post)"
proof (induction b)
  case Nil
  then show ?case by simp
next
  case (Cons c b)
  then show ?case by (cases b) auto
qed

lemma after_at_elim:
  "after_at s \<Longrightarrow> \<exists>b d post. s = b @ 0x2E # d # post \<and> b \<noteq> [] \<and> list_all nonspace b \<and> nonspace d"
proof (induction s)
  case Nil
  then show ?case by simp
next
  case (Cons c cs)
  then have c: "nonspace c" and "dot_tail cs \<or> after_at cs" by auto
  from this(2) show ?case
  proof
    assume "dot_tail cs"
    then obtain d post where "cs = 0x2E # d # post" "nonspace d" using dot_tail_iff by blast
    then have "c # cs = [c] @ 0x2E # d # post \<and> [c] \<noteq> [] \<and> list_all nonspace [c] \<and> nonspace d"
      using c by simp
    then show ?thesis by blast
  next
    assume "after_at cs"
    then obtain b d post where "cs = b @ 0x2E # d # post" "b \<noteq> []" "list_all nonspace b" "nonspace d"
      using Cons.IH by blast
    then have "c # cs = (c # b) @ 0x2E # d # post \<and> c # b \<noteq> [] \<and> list_all nonspace (c # b) \<and> nonspace d"
      using c by simp
    then show ?thesis by blast
  qed
qed

lemma email_match_intro:
  "nonspace a \<Longrightarrow> after_at rest \<Longrightarrow> email_match (pre @ a # 0x40 # rest)"
proof (induction pre)
  case Nil
  then show ?case by simp
next
  case (Cons c pre)
  then have "email_match (pre @ a # 0x40 # rest)" by simp
  then show ?case by (cases pre) auto
qed

lemma email_match_elim:
  "email_match s \<Longrightarrow> \<exists>pre a rest. s = pre @ a # 0x40 # rest \<and> nonspace a \<and> after_at rest"
proof (induction s rule: email_match.induct)
  case (1 c d cs)
  from "1.prems" have "(nonspace c \<and> d = 0x40 \<and> after_at cs) \<or> email_match (d # cs)" by simp
  then show ?case
  proof
    assume "nonspace c \<and> d = 0x40 \<and> after_at cs"
    then have "c # d # cs = [] @ c # 0x40 # cs \<and> nonspace c \<and> after_at cs" by simp
    then show ?thesis by blast
  next
    assume "email_match (d # cs)"
    then obtain pre a rest where "d # cs = pre @ a # 0x40 # rest" "nonspace a" "after_at rest"
      using "1.IH" by blast
    then have "c # d # cs = (c # pre) @ a # 0x40 # rest \<and> nonspace a \<and> after_at rest" by simp
    then show ?thesis by blast
  qed
qed simp_all

lemma email_match_iff:
  "email_match s \<longleftrightarrow>
     (\<exists>pre a b d post. s = pre @ a # 0x40 # b @ 0x2E # d # post
        \<and> nonspace a \<and> b \<noteq> [] \<and> list_all nonspace b \<and> nonspace d)"
proof
  assume "email_match s"
  then obtain pre a rest where s: "s = pre @ a # 0x40 # rest" "nonspace a" "after_at rest"
    using email_match_elim by blast
  then obtain b d post where "rest = b @ 0x2E # d # post" "b \<noteq> []" "list_all nonspace b"
    "nonspace d"
    using after_at_elim by blast
  then show "\<exists>pre a b d post. s = pre @ a # 0x40 # b @ 0x2E # d # post
        \<and> nonspace a \<and> b \<noteq> [] \<and> list_all nonspace b \<and> nonspace d"
    using s by blast
next
  assume "\<exists>pre a b d post. s = pre @ a # 0x40 # b @ 0x2E # d # post
        \<and> nonspace a \<and> b \<noteq> [] \<and> list_all nonspace b \<and> nonspace d"
  then show "email_match s" using email_match_intro after_at_intro by blast
qed

section \<open>Validation\<close>

lemma validate_path_Username:
  "validate_path Username v = [] \<longleftrightarrow> (\<exists>u. v = Some u \<and> 3 \<le> length u \<and> length u \<le> 50)"
  by (cases v) (auto simp: validate_path_def userSchema_def required_ok_def minlength_ok_def
      maxlength_ok_def)

lemma email_match_nonempty: "email_match e \<Longrightarrow> e \<noteq> []"
  by auto

lemma validate_path_Email:
  "validate_path Email v = [] \<longleftrightarrow> (\<exists>e. v = Some e \<and> email_match e)"
  by (cases v) (auto simp: validate_path_def userSchema_def required_ok_def match_ok_def)

lemma validate_path_Password:
  "validate_path Password v = [] \<longleftrightarrow> (\<exists>w. v = Some w \<and> 6 \<le> length w)"
  by (cases v) (auto simp: validate_path_def userSchema_def required_ok_def minlength_ok_def)

lemma validate_Nil_iff: "validate p = [] \<longleftrightarrow> field_rules_ok p"
  by (auto simp: validate_def validate_unset_def validate_update_def validate_set_def
      field_rules_ok_def validate_path_Username validate_path_Email validate_path_Password
      split: option.splits)

lemma validate_fields_of: "validate (fields_of d) = validate_update (fields_of d)"
  by (simp add: validate_def validate_unset_def fields_of_def)

section \<open>Lists of documents\<close>

lemma lookup_Some: "lookup i ds = Some d \<Longrightarrow> d \<in> set ds \<and> uid d = i"
  unfolding lookup_def by (induction ds) (auto split: if_splits)

lemma lookup_None: "lookup i ds = None \<longleftrightarrow> i \<notin> uid ` set ds"
  unfolding lookup_def by (induction ds) auto

lemma map_uid_remove_first: "map uid (remove_first i ds) = remove1 i (map uid ds)"
  by (induction ds) auto

lemma set_remove_first: "set (remove_first i ds) \<subseteq> set ds"
  by (induction ds) auto

lemma distinct_email_remove_first:
  "distinct (map email ds) \<Longrightarrow> distinct (map email (remove_first i ds))"
  using set_remove_first by (induction ds) fastforce+

lemma map_uid_replace_first: "uid d' = i \<Longrightarrow> map uid (replace_first i d' ds) = map uid ds"
  by (induction ds) auto

lemma set_replace_first: "set (replace_first i d' ds) \<subseteq> insert d' (set ds)"
  by (induction ds) auto

lemma distinct_email_replace_first:
  "distinct (map uid ds) \<Longrightarrow> distinct (map email ds) \<Longrightarrow> \<not> email_taken i (email d') ds
   \<Longrightarrow> distinct (map email (replace_first i d' ds))"
proof (induction ds)
  case Nil
  then show ?case by simp
next
  case (Cons d ds)
  have nt: "\<And>x. x \<in> set (d # ds) \<Longrightarrow> uid x \<noteq> i \<Longrightarrow> email x \<noteq> email d'"
    using Cons.prems(3) by (auto simp: email_taken_def list_ex_iff)
  show ?case
  proof (cases "uid d = i")
    case True
    then have "\<And>x. x \<in> set ds \<Longrightarrow> uid x \<noteq> i" using Cons.prems(1) by (auto simp: image_iff)
    then have "email d' \<notin> email ` set ds" using nt by fastforce
    then show ?thesis using True Cons.prems(2) by simp
  next
    case False
    have "\<not> email_taken i (email d') ds"
      using Cons.prems(3) by (auto simp: email_taken_def)
    then have ih: "distinct (map email (replace_first i d' ds))"
      using Cons.IH Cons.prems by simp
    have "email d \<notin> email ` set (replace_first i d' ds)"
    proof
      assume "email d \<in> email ` set (replace_first i d' ds)"
      then obtain x where x: "x \<in> set (replace_first i d' ds)" "email x = email d" by auto
      then have "x = d' \<or> x \<in> set ds" using set_replace_first by fastforce
      then show False
      proof
        assume "x = d'" then show False using nt[of d] False x by simp
      next
        assume "x \<in> set ds" then show False using Cons.prems(2) x(2) by (auto simp: image_iff)
      qed
    qed
    then show ?thesis using False ih by simp
  qed
qed

lemma validate_merge:
  assumes "validate (fields_of d) = []"
  shows "validate (fields_of (merge_fields d p)) = validate_update p"
proof -
  have "validate_update (fields_of d) = []"
    using assms by (simp add: validate_fields_of)
  then have "validate_update (fields_of (merge_fields d p)) = validate_update p"
    by (auto simp: validate_update_def fields_of_def merge_fields_def validate_set_def
        split: option.splits)
  then show ?thesis by (simp add: validate_fields_of)
qed

section \<open>The handlers keep the store well formed\<close>

lemma id_usable_iff:
  "id_usable st g bid \<longleftrightarrow> id_errors bid = [] \<and> new_id g bid \<notin> set (map uid (docs st))"
  by (simp add: id_usable_def id_errors_def new_id_def split: option.splits)

lemma post_user_ok:
  "post_user None g st bid p =
     (if id_errors bid @ validate p \<noteq> []
        then (Resp 400 (ErrorOf (ValidationError (id_errors bid @ validate p))), st)
      else if new_id g bid \<in> set (map uid (docs st))
        then (Resp 400 (ErrorOf (DuplicateId (new_id g bid))), st)
      else if email_stored st p
        then (Resp 400 (ErrorOf (DuplicateKey (the (p_email p)))), st)
      else (Resp 201 (UserDoc (new_user (new_id g bid) p)),
            st\<lparr>docs := docs st @ [new_user (new_id g bid) p]\<rparr>))"
proof (cases "validate p = []")
  case False
  then show ?thesis by (simp add: post_user_def save_def)
next
  case True
  then have "field_rules_ok p" by (simp add: validate_Nil_iff)
  then obtain e where "p_email p = Some e"
    by (auto simp: field_rules_ok_def split: option.splits)
  then show ?thesis
    using True by (simp add: post_user_def save_def Let_def email_stored_def new_user_def)
qed

lemma post_user_fault:
  "post_user (Some m) g st bid p =
     (if id_errors bid @ validate p \<noteq> []
        then (Resp 400 (ErrorOf (ValidationError (id_errors bid @ validate p))), st)
      else (Resp 400 (ErrorOf (StorageFault m)), st))"
  by (simp add: post_user_def save_def)

lemma fields_of_new_user:
  "field_rules_ok p \<Longrightarrow> fields_of (new_user i p) = p"
  by (cases p) (auto simp: fields_of_def new_user_def field_rules_ok_def split: option.splits)

lemma store_inv_post_user: "store_inv st \<Longrightarrow> store_inv (snd (post_user flt g st bid p))"
proof (cases flt)
  case (Some m)
  assume "store_inv st"
  then show ?thesis using Some by (simp add: post_user_fault)
next
  case None
  assume inv: "store_inv st"
  let ?u = "new_user (new_id g bid) p"
  show ?thesis
  proof (cases "snd (post_user None g st bid p) = st")
    case True
    then show ?thesis using inv None by simp
  next
    case False
    then have c: "validate p = []" "new_id g bid \<notin> set (map uid (docs st))"
      "\<not> email_stored st p"
      and r: "snd (post_user None g st bid p) = st\<lparr>docs := docs st @ [?u]\<rparr>"
      by (auto simp: post_user_ok split: if_splits)
    have ok: "field_rules_ok p" using c(1) by (simp add: validate_Nil_iff)
    have e: "email ?u \<notin> email ` set (docs st)"
      using c(3) ok by (auto simp: email_stored_def new_user_def field_rules_ok_def
          split: option.splits)
    have i: "uid ?u \<notin> uid ` set (docs st)"
      using c(2) by (simp add: new_user_def)
    have v: "validate (fields_of ?u) = []"
      using c(1) ok by (simp add: fields_of_new_user)
    have "store_inv (st\<lparr>docs := docs st @ [?u]\<rparr>)"
      using inv e i v by (simp add: store_inv_def)
    then show ?thesis using r None by simp
  qed
qed

lemma put_user_ok:
  "put_user None st s p =
     (case cast_id s of
        None \<Rightarrow> (Resp 400 (ErrorOf (CastError s)), st)
      | Some i \<Rightarrow>
          if validate_update p \<noteq> []
            then (Resp 400 (ErrorOf (ValidationError (validate_update p))), st)
          else (case lookup i (docs st) of
                  None \<Rightarrow> (Resp 404 (ErrorBody ''User not found''), st)
                | Some d \<Rightarrow>
                    if update_conflict i p (docs st)
                      then (Resp 400 (ErrorOf (DuplicateKey (email (merge_fields d p)))), st)
                    else (Resp 200 (UserDoc (merge_fields d p)),
                          st\<lparr>docs := replace_first i (merge_fields d p) (docs st)\<rparr>)))"
  by (simp add: put_user_def findByIdAndUpdate_def Let_def split: option.splits)

lemma put_user_fault: "\<exists>b. put_user (Some m) st s p = (Resp 400 b, st)"
  by (simp add: put_user_def findByIdAndUpdate_def split: option.splits)

lemma delete_user_ok:
  "delete_user None st s =
     (case cast_id s of
        None \<Rightarrow> (Resp 400 (ErrorBody ''Invalid user ID''), st)
      | Some i \<Rightarrow>
          (case lookup i (docs st) of
             None \<Rightarrow> (Resp 404 (ErrorBody ''User not found''), st)
           | Some d \<Rightarrow> (Resp 200 (MsgBody ''Deleted successfully''),
                        st\<lparr>docs := remove_first i (docs st)\<rparr>)))"
  by (simp add: delete_user_def findByIdAndDelete_def split: option.splits)

lemma delete_user_fault:
  "delete_user (Some m) st s = (Resp 400 (ErrorBody ''Invalid user ID''), st)"
  by (simp add: delete_user_def findByIdAndDelete_def split: option.splits)

lemma get_user_ok:
  "get_user None st s =
     (case cast_id s of
        None \<Rightarrow> (Resp 400 (ErrorBody ''Invalid user ID''), st)
      | Some i \<Rightarrow>
          (case lookup i (docs st) of
             None \<Rightarrow> (Resp 404 (ErrorBody ''User not found''), st)
           | Some d \<Rightarrow> (Resp 200 (UserDoc d), st)))"
  by (simp add: get_user_def findById_def split: option.splits)

lemma get_user_fault:
  "get_user (Some m) st s = (Resp 400 (ErrorBody ''Invalid user ID''), st)"
  by (simp add: get_user_def findById_def split: option.splits)

lemma snd_get_user: "snd (get_user flt st s) = st"
  by (cases flt) (simp_all add: get_user_ok get_user_fault split: option.splits)

lemma snd_list_users: "snd (list_users flt st) = st"
  by (simp add: list_users_def find_all_def split: option.splits)

lemma uid_merge_fields: "uid (merge_fields d p) = uid d"
  by (simp add: merge_fields_def)

lemma own_email_not_taken:
  assumes "distinct (map email ds)" and "lookup i ds = Some d"
  shows "\<not> email_taken i (email d) ds"
proof
  assume "email_taken i (email d) ds"
  then obtain x where x: "x \<in> set ds" "uid x \<noteq> i" "email x = email d"
    by (auto simp: email_taken_def list_ex_iff)
  have d: "d \<in> set ds" "uid d = i" using assms(2) lookup_Some by auto
  have "inj_on email (set ds)" using assms(1) by (simp add: distinct_map)
  then have "x = d" using x d by (auto dest: inj_onD)
  then show False using x d by simp
qed

lemma email_taken_merge:
  assumes "store_inv st" and "lookup i (docs st) = Some d"
  shows "email_taken i (email (merge_fields d p)) (docs st) = update_conflict i p (docs st)"
proof (cases "p_email p")
  case None
  then have "email (merge_fields d p) = email d" by (simp add: merge_fields_def)
  then show ?thesis
    using assms None own_email_not_taken [of "docs st" i d]
    by (simp add: update_conflict_def store_inv_def)
next
  case (Some e)
  then show ?thesis by (simp add: update_conflict_def merge_fields_def)
qed

lemma store_inv_replace:
  assumes inv: "store_inv st" and l: "lookup i (docs st) = Some d"
    and v: "validate_update p = []"
    and nc: "\<not> update_conflict i p (docs st)"
  shows "store_inv (st\<lparr>docs := replace_first i (merge_fields d p) (docs st)\<rparr>)"
proof -
  let ?d = "merge_fields d p"
  have d: "d \<in> set (docs st)" "uid d = i" using l lookup_Some by auto
  have nt: "\<not> email_taken i (email ?d) (docs st)"
    using inv l nc by (simp add: email_taken_merge)
  have u: "uid ?d = i" using d by (simp add: uid_merge_fields)
  have vd: "validate (fields_of ?d) = []"
    using inv d v by (simp add: store_inv_def list_all_iff validate_merge)
  have sub: "set (replace_first i ?d (docs st)) \<subseteq> insert ?d (set (docs st))"
    by (rule set_replace_first)
  have 1: "distinct (map uid (replace_first i ?d (docs st)))"
    using inv u by (simp add: map_uid_replace_first store_inv_def)
  have 3: "distinct (map email (replace_first i ?d (docs st)))"
    using inv nt by (simp add: distinct_email_replace_first store_inv_def)
  have 4: "list_all (\<lambda>x. validate (fields_of x) = []) (replace_first i ?d (docs st))"
    using inv sub vd by (auto simp: store_inv_def list_all_iff)
  show ?thesis using 1 3 4 by (simp add: store_inv_def)
qed

lemma store_inv_put_user: "store_inv st \<Longrightarrow> store_inv (snd (put_user flt st s p))"
proof (cases flt)
  case (Some m)
  assume "store_inv st"
  moreover obtain b where "put_user (Some m) st s p = (Resp 400 b, st)"
    using put_user_fault by blast
  ultimately show ?thesis using Some by simp
next
  case None
  assume "store_inv st"
  then show ?thesis using None
    by (auto simp: put_user_ok store_inv_replace split: option.splits)
qed

lemma store_inv_remove:
  assumes inv: "store_inv st"
  shows "store_inv (st\<lparr>docs := remove_first i (docs st)\<rparr>)"
proof -
  have sub: "set (remove_first i (docs st)) \<subseteq> set (docs st)" by (rule set_remove_first)
  have 1: "distinct (map uid (remove_first i (docs st)))"
    using inv by (simp add: map_uid_remove_first store_inv_def)
  have 3: "distinct (map email (remove_first i (docs st)))"
    using inv by (simp add: distinct_email_remove_first store_inv_def)
  have 4: "list_all (\<lambda>x. validate (fields_of x) = []) (remove_first i (docs st))"
    using inv sub by (auto simp: store_inv_def list_all_iff)
  show ?thesis using 1 3 4 by (simp add: store_inv_def)
qed

lemma store_inv_delete_user: "store_inv st \<Longrightarrow> store_inv (snd (delete_user flt st s))"
  by (cases flt) (auto simp: delete_user_ok delete_user_fault store_inv_remove split: option.splits)

lemma store_inv_serve: "store_inv st \<Longrightarrow> store_inv (snd (serve flt g st rq))"
  by (auto simp: serve_def store_inv_post_user store_inv_put_user store_inv_delete_user
      snd_get_user snd_list_users split: option.splits target.splits route.splits)

lemma store_inv_empty: "store_inv empty_store"
  by (simp add: store_inv_def empty_store_def)

lemma reachable_store_inv: "reachable st \<Longrightarrow> store_inv st"
  by (induction rule: reachable.induct) (simp_all add: store_inv_empty store_inv_serve)

section \<open>More on lists of documents and on update validation\<close>

lemma lookup_replace_first:
  "lookup i ds = Some d \<Longrightarrow> uid d' = i \<Longrightarrow> lookup i (replace_first i d' ds) = Some d'"
  unfolding lookup_def by (induction ds) (auto split: if_splits)

lemma replace_first_same: "lookup i ds = Some d \<Longrightarrow> replace_first i d ds = ds"
  unfolding lookup_def by (induction ds) (auto split: if_splits)

lemma mem_replace_first: "lookup i ds = Some d \<Longrightarrow> d' \<in> set (replace_first i d' ds)"
  unfolding lookup_def by (induction ds) (auto split: if_splits)


lemma validate_update_Nil_iff: "validate_update p = [] \<longleftrightarrow> supplied_rules_ok p"
  by (auto simp: validate_update_def validate_set_def supplied_rules_ok_def
      validate_path_Username validate_path_Email validate_path_Password split: option.splits)

lemma validate_set_supplied: "(f, r) \<in> set (validate_set g v) \<Longrightarrow> f = g \<and> v \<noteq> None"
  by (cases v) (auto simp: validate_set_def validate_path_def split: option.splits)

lemma validate_update_supplied: "(f, r) \<in> set (validate_update p) \<Longrightarrow> supplied p f"
  by (auto simp: validate_update_def supplied_def dest!: validate_set_supplied)

section \<open>The scenario stores and the mounted routes\<close>

lemma reachable_store1: "reachable store1"
proof -
  have "snd (serve None 0 empty_store
               \<lparr>rq_verb = POST, rq_path = [js ''users''], rq_id = None, rq_body = john\<rparr>)
          = store1"
    by code_simp
  then show ?thesis using reachable.step [OF reachable.init] by metis
qed

lemma reachable_store2: "reachable store2"
proof -
  have "snd (serve None 1 store1
               \<lparr>rq_verb = POST, rq_path = [js ''users''], rq_id = None, rq_body = jane\<rparr>)
          = store2"
    by code_simp
  then show ?thesis using reachable.step [OF reachable_store1] by metis
qed

lemma users_mounted:
  "app POST [js ''users''] = Some (UsersRoute Create)
   \<and> app GET [js ''users''] = Some (UsersRoute ListAll)
   \<and> app GET [js ''users'', s] = Some (UsersRoute (GetOne s))
   \<and> app PUT [js ''users'', s] = Some (UsersRoute (Update s))
   \<and> app DELETE [js ''users'', s] = Some (UsersRoute (Delete s))"
proof -
  have "map lower (js ''users'') = js ''users''" by code_simp
  then show ?thesis by (simp add: app_def)
qed

section \<open>Create\<close>

text \<open>
  C1, as the code has it. Create, with the storage layer answering. The identifier of
  the new document is the \<open>_id\<close> of the body when it carries one, else the identifier
  the mapper generates. A payload that satisfies the field rules, whose email is not
  stored, and whose identifier is well formed and not stored, is persisted at the end
  of the collection under that identifier, and the response is 201 with a document
  whose username, email and password are the payload's. Every other request leaves the
  store as it is and is answered 400 with the error of the storage layer.
\<close>

theorem create_contract:
  "(field_rules_ok p \<and> \<not> email_stored st p \<and> id_usable st g bid \<longrightarrow>
      (\<exists>u. post_user None g st bid p =
              (Resp 201 (UserDoc u), st\<lparr>docs := docs st @ [u]\<rparr>)
         \<and> uid u = new_id g bid \<and> uid u \<notin> uid ` set (docs st)
         \<and> p_username p = Some (username u) \<and> p_email p = Some (email u)
         \<and> p_password p = Some (password u)))
   \<and> (\<not> (field_rules_ok p \<and> \<not> email_stored st p \<and> id_usable st g bid) \<longrightarrow>
        (\<exists>e. post_user None g st bid p = (Resp 400 (ErrorOf e), st)))"
proof (intro conjI impI)
  assume ok: "field_rules_ok p \<and> \<not> email_stored st p \<and> id_usable st g bid"
  let ?u = "new_user (new_id g bid) p"
  have i: "id_errors bid = []" "new_id g bid \<notin> set (map uid (docs st))"
    using ok by (simp_all add: id_usable_iff)
  have r: "post_user None g st bid p = (Resp 201 (UserDoc ?u), st\<lparr>docs := docs st @ [?u]\<rparr>)"
    using ok i by (simp add: post_user_ok validate_Nil_iff)
  have f: "uid ?u = new_id g bid" "uid ?u \<notin> uid ` set (docs st)"
    using i(2) by (simp_all add: new_user_def)
  have "fields_of ?u = p" using ok by (simp add: fields_of_new_user)
  then have e: "p_username p = Some (username ?u)" "p_email p = Some (email ?u)"
    "p_password p = Some (password ?u)"
    by (auto simp: fields_of_def dest: arg_cong [where f = p_username]
        arg_cong [where f = p_email] arg_cong [where f = p_password])
  show "\<exists>u. post_user None g st bid p =
               (Resp 201 (UserDoc u), st\<lparr>docs := docs st @ [u]\<rparr>)
          \<and> uid u = new_id g bid \<and> uid u \<notin> uid ` set (docs st)
          \<and> p_username p = Some (username u) \<and> p_email p = Some (email u)
          \<and> p_password p = Some (password u)"
    using r f e by blast
next
  assume "\<not> (field_rules_ok p \<and> \<not> email_stored st p \<and> id_usable st g bid)"
  then show "\<exists>e. post_user None g st bid p = (Resp 400 (ErrorOf e), st)"
    by (auto simp: post_user_ok validate_Nil_iff id_usable_iff)
qed

theorem create_contract_witness:
  "field_rules_ok jane \<and> \<not> email_stored store1 jane
   \<and> id_usable store1 1 None
   \<and> post_user None 1 store1 None jane = (Resp 201 (UserDoc jane_doc), store2)
   \<and> id_usable store1 1 (Some oid_unknown)
   \<and> post_user None 1 store1 (Some oid_unknown) jane
       = (Resp 201 (UserDoc (jane_doc\<lparr>uid := 10\<rparr>)),
          store1\<lparr>docs := [john_doc, jane_doc\<lparr>uid := 10\<rparr>]\<rparr>)
   \<and> \<not> field_rules_ok (john\<lparr>p_email := Some (js ''invalid'')\<rparr>)
   \<and> post_user None 1 store1 None (john\<lparr>p_email := Some (js ''invalid'')\<rparr>)
       = (Resp 400 (ErrorOf (ValidationError [(Email, Match)])), store1)
   \<and> email_stored store1 john
   \<and> post_user None 1 store1 None john
       = (Resp 400 (ErrorOf (DuplicateKey (js ''john@example.com''))), store1)"
proof -
  have a: "field_rules_ok jane" by code_simp
  have b: "\<not> email_stored store1 jane" by code_simp
  have c: "id_usable store1 1 None" by code_simp
  have d: "post_user None 1 store1 None jane = (Resp 201 (UserDoc jane_doc), store2)"
    by code_simp
  have e: "id_usable store1 1 (Some oid_unknown)" by code_simp
  have f: "post_user None 1 store1 (Some oid_unknown) jane
       = (Resp 201 (UserDoc (jane_doc\<lparr>uid := 10\<rparr>)),
          store1\<lparr>docs := [john_doc, jane_doc\<lparr>uid := 10\<rparr>]\<rparr>)"
    by code_simp
  have g: "\<not> field_rules_ok (john\<lparr>p_email := Some (js ''invalid'')\<rparr>)"
    by code_simp
  have h: "post_user None 1 store1 None (john\<lparr>p_email := Some (js ''invalid'')\<rparr>)
       = (Resp 400 (ErrorOf (ValidationError [(Email, Match)])), store1)"
    by code_simp
  have k: "email_stored store1 john"
    by code_simp
  have l: "post_user None 1 store1 None john
       = (Resp 400 (ErrorOf (DuplicateKey (js ''john@example.com''))), store1)"
    by code_simp
  show ?thesis
    using a b c d e f g h k l
      create_contract [of jane store1 1 None] create_contract [of jane store1 1 "Some oid_unknown"]
      create_contract [of "john\<lparr>p_email := Some (js ''invalid'')\<rparr>" store1 1 None]
      create_contract [of john store1 1 None]
    by - (intro conjI; assumption)
qed

text \<open>
  C1 as stated fails: a payload that satisfies every field rule and whose email is not
  stored is refused with 400 when the body carries the \<open>_id\<close> of a stored document, or
  an \<open>_id\<close> that is not an identifier.
\<close>

theorem create_contract_counterexample:
  "reachable store1
   \<and> (field_rules_ok jane \<and> \<not> email_stored store1 jane
      \<and> cast_id oid0 = Some 0 \<and> lookup 0 (docs store1) = Some john_doc
      \<and> post_user None 1 store1 (Some oid0) jane
          = (Resp 400 (ErrorOf (DuplicateId 0)), store1)
      \<and> cast_id (js ''abc'') = None
      \<and> post_user None 1 store1 (Some (js ''abc'')) jane
          = (Resp 400 (ErrorOf (ValidationError [(Id, Cast)])), store1))"
proof (rule conjI [OF reachable_store1])
  show "field_rules_ok jane \<and> \<not> email_stored store1 jane
      \<and> cast_id oid0 = Some 0 \<and> lookup 0 (docs store1) = Some john_doc
      \<and> post_user None 1 store1 (Some oid0) jane
          = (Resp 400 (ErrorOf (DuplicateId 0)), store1)
      \<and> cast_id (js ''abc'') = None
      \<and> post_user None 1 store1 (Some (js ''abc'')) jane
          = (Resp 400 (ErrorOf (ValidationError [(Id, Cast)])), store1)"
    by code_simp
qed

section \<open>Get by identifier\<close>

text \<open>
  C2. Get by identifier, with the storage layer answering: a string the identifier
  cast rejects gives 400; an identifier no stored document has gives 404; an identifier
  of a stored document gives 200 with that document. Each status is returned in exactly
  one of the three cases, and the store is not changed.
\<close>

theorem get_by_id_outcomes:
  "(cast_id s = None \<longrightarrow>
      get_user None st s = (Resp 400 (ErrorBody ''Invalid user ID''), st))
   \<and> (\<forall>i. cast_id s = Some i \<and> i \<notin> uid ` set (docs st) \<longrightarrow>
         get_user None st s = (Resp 404 (ErrorBody ''User not found''), st))
   \<and> (\<forall>i. cast_id s = Some i \<and> i \<in> uid ` set (docs st) \<longrightarrow>
         (\<exists>d. d \<in> set (docs st) \<and> uid d = i
            \<and> get_user None st s = (Resp 200 (UserDoc d), st)))
   \<and> (status (fst (get_user None st s)) = Some 400 \<longleftrightarrow> cast_id s = None)
   \<and> (status (fst (get_user None st s)) = Some 404 \<longleftrightarrow>
        (\<exists>i. cast_id s = Some i \<and> i \<notin> uid ` set (docs st)))
   \<and> (status (fst (get_user None st s)) = Some 200 \<longleftrightarrow>
        (\<exists>i. cast_id s = Some i \<and> i \<in> uid ` set (docs st)))"
proof (cases "cast_id s")
  case None
  then show ?thesis by (simp add: get_user_ok)
next
  case (Some i)
  show ?thesis
  proof (cases "lookup i (docs st)")
    case None
    then have "i \<notin> uid ` set (docs st)" by (simp add: lookup_None)
    then show ?thesis using Some None by (simp add: get_user_ok)
  next
    case (Some d)
    note l = this
    then have d: "d \<in> set (docs st)" "uid d = i" using lookup_Some by auto
    then have "i \<in> uid ` set (docs st)" by auto
    then show ?thesis using \<open>cast_id s = Some i\<close> l d by (auto simp: get_user_ok)
  qed
qed

theorem get_by_id_outcomes_witness:
  "cast_id (js ''abc'') = None
   \<and> get_user None store1 (js ''abc'') = (Resp 400 (ErrorBody ''Invalid user ID''), store1)
   \<and> cast_id oid_unknown = Some 10 \<and> 10 \<notin> uid ` set (docs store1)
   \<and> get_user None store1 oid_unknown = (Resp 404 (ErrorBody ''User not found''), store1)
   \<and> cast_id oid0 = Some 0 \<and> 0 \<in> uid ` set (docs store1)
   \<and> get_user None store1 oid0 = (Resp 200 (UserDoc john_doc), store1)"
proof -
  have a: "cast_id (js ''abc'') = None" by code_simp
  have b: "cast_id oid_unknown = Some 10" by code_simp
  have c: "cast_id oid0 = Some 0" by code_simp
  have d: "docs store1 = [john_doc]" "uid john_doc = 0"
    by (simp_all add: store1_def john_doc_def)
  have e: "get_user None store1 oid0 = (Resp 200 (UserDoc john_doc), store1)" by code_simp
  show ?thesis
    using a b c d e get_by_id_outcomes [of "js ''abc''" store1]
      get_by_id_outcomes [of oid_unknown store1] get_by_id_outcomes [of oid0 store1]
    by simp
qed

section \<open>Update\<close>

text \<open>
  C3. Update of a stored document, on a store the service can be in and with the
  storage layer answering. Let \<open>m\<close> be the stored document with the supplied fields
  merged in. When \<open>m\<close> passes the document validation of Create and no other document
  holds its email, \<open>m\<close> replaces the stored document and the response is 200 with
  \<open>m\<close>. When \<open>m\<close> fails that validation the response is 400 with exactly the
  validation errors of \<open>m\<close>, and when another document holds its email the response is
  400 with the duplicate-key error; in both cases the store is left as it is.
\<close>

theorem update_contract:
  assumes "reachable st" and "cast_id s = Some i" and "lookup i (docs st) = Some d"
  shows "(validate (fields_of (merge_fields d p)) = []
          \<and> \<not> email_taken i (email (merge_fields d p)) (docs st) \<longrightarrow>
            put_user None st s p =
              (Resp 200 (UserDoc (merge_fields d p)),
               st\<lparr>docs := replace_first i (merge_fields d p) (docs st)\<rparr>)
            \<and> lookup i (replace_first i (merge_fields d p) (docs st))
                = Some (merge_fields d p))
       \<and> (validate (fields_of (merge_fields d p)) \<noteq> [] \<longrightarrow>
            put_user None st s p =
              (Resp 400 (ErrorOf (ValidationError (validate (fields_of (merge_fields d p))))),
               st))
       \<and> (validate (fields_of (merge_fields d p)) = []
          \<and> email_taken i (email (merge_fields d p)) (docs st) \<longrightarrow>
            put_user None st s p =
              (Resp 400 (ErrorOf (DuplicateKey (email (merge_fields d p)))), st))"
proof -
  have inv: "store_inv st" using assms(1) by (rule reachable_store_inv)
  have d: "d \<in> set (docs st)" "uid d = i" using assms(3) lookup_Some by auto
  have v: "validate (fields_of (merge_fields d p)) = validate_update p"
    using inv d by (simp add: store_inv_def list_all_iff validate_merge)
  have t: "email_taken i (email (merge_fields d p)) (docs st) = update_conflict i p (docs st)"
    using inv assms(3) by (rule email_taken_merge)
  have l: "lookup i (replace_first i (merge_fields d p) (docs st)) = Some (merge_fields d p)"
    using assms(3) d by (simp add: lookup_replace_first uid_merge_fields)
  show ?thesis
    unfolding v t using assms(2,3) l by (simp add: put_user_ok)
qed

theorem update_contract_witness:
  "reachable store2 \<and> cast_id oid0 = Some 0 \<and> lookup 0 (docs store2) = Some john_doc
   \<and> validate (fields_of (merge_fields john_doc (only_username (js ''johnny'')))) = []
   \<and> \<not> email_taken 0 (email (merge_fields john_doc (only_username (js ''johnny''))))
         (docs store2)
   \<and> validate (fields_of (merge_fields john_doc (only_username (js ''jo'')))) \<noteq> []
   \<and> email_taken 0 (js ''jane@example.com'') (docs store2)
   \<and> put_user None store2 oid0 (only_username (js ''johnny''))
       = (Resp 200 (UserDoc (john_doc\<lparr>username := js ''johnny''\<rparr>)),
          store2\<lparr>docs := [john_doc\<lparr>username := js ''johnny''\<rparr>, jane_doc]\<rparr>)
   \<and> put_user None store2 oid0 (only_username (js ''jo''))
       = (Resp 400 (ErrorOf (ValidationError [(Username, MinLength)])), store2)
   \<and> put_user None store2 oid0 (empty_payload\<lparr>p_email := Some (js ''jane@example.com'')\<rparr>)
       = (Resp 400 (ErrorOf (DuplicateKey (js ''jane@example.com''))), store2)"
proof -
  have a: "cast_id oid0 = Some 0" by code_simp
  have b: "lookup 0 (docs store2) = Some john_doc" by code_simp
  have c: "put_user None store2 oid0 (only_username (js ''johnny''))
       = (Resp 200 (UserDoc (john_doc\<lparr>username := js ''johnny''\<rparr>)),
          store2\<lparr>docs := [john_doc\<lparr>username := js ''johnny''\<rparr>, jane_doc]\<rparr>)"
    by code_simp
  have d: "put_user None store2 oid0 (only_username (js ''jo''))
       = (Resp 400 (ErrorOf (ValidationError [(Username, MinLength)])), store2)"
    by code_simp
  have e: "put_user None store2 oid0 (empty_payload\<lparr>p_email := Some (js ''jane@example.com'')\<rparr>)
       = (Resp 400 (ErrorOf (DuplicateKey (js ''jane@example.com''))), store2)"
    by code_simp
  have f: "validate (fields_of (merge_fields john_doc (only_username (js ''johnny'')))) = []"
    by code_simp
  have g: "\<not> email_taken 0 (email (merge_fields john_doc (only_username (js ''johnny''))))
         (docs store2)"
    by code_simp
  have h: "validate (fields_of (merge_fields john_doc (only_username (js ''jo'')))) \<noteq> []"
    by code_simp
  have k: "email_taken 0 (js ''jane@example.com'') (docs store2)"
    by code_simp
  note t = update_contract [OF reachable_store2 a b]
  show ?thesis
    using a b c d e f g h k reachable_store2 t [of "only_username (js ''johnny'')"]
      t [of "only_username (js ''jo'')"]
      t [of "empty_payload\<lparr>p_email := Some (js ''jane@example.com'')\<rparr>"]
    by - (intro conjI; assumption)
qed

section \<open>Email uniqueness\<close>

text \<open>
  C4. On every store the service can be in no two documents have the same email, and a
  Create whose email a stored document already has gets 400 and leaves the store as it
  is, whatever the state of the connection.
\<close>

theorem email_unique:
  assumes "reachable st"
  shows "distinct (map email (docs st))
       \<and> (email_stored st p \<longrightarrow>
            (\<exists>e. post_user flt g st bid p = (Resp 400 (ErrorOf e), st)))"
proof -
  have "store_inv st" using assms by (rule reachable_store_inv)
  then have "distinct (map email (docs st))" by (simp add: store_inv_def)
  moreover have "email_stored st p \<longrightarrow>
                   (\<exists>e. post_user flt g st bid p = (Resp 400 (ErrorOf e), st))"
    by (cases flt) (auto simp: post_user_ok post_user_fault)
  ultimately show ?thesis by simp
qed

theorem email_unique_witness:
  "reachable store1 \<and> distinct (map email (docs store1)) \<and> email_stored store1 john
   \<and> post_user None 1 store1 None john
       = (Resp 400 (ErrorOf (DuplicateKey (js ''john@example.com''))), store1)"
proof -
  have a: "email_stored store1 john" by code_simp
  have b: "post_user None 1 store1 None john
       = (Resp 400 (ErrorOf (DuplicateKey (js ''john@example.com''))), store1)"
    by code_simp
  show ?thesis
    using a b reachable_store1 email_unique [OF reachable_store1, of john None 1 None]
    by simp
qed

section \<open>Dispatch\<close>

text \<open>
  C5 fails on the code for the prefix \<open>/groups\<close>: the server mounts the users router
  only, so no request under \<open>/groups\<close> reaches a handler; each is answered 404 by the
  framework and the store is not touched.
\<close>

theorem groups_not_mounted:
  "app m (js ''groups'' # rest) = None
   \<and> serve flt g st \<lparr>rq_verb = m, rq_path = js ''groups'' # rest, rq_id = bid, rq_body = p\<rparr>
       = (Resp 404 NoRoute, st)"
proof -
  have "map lower (js ''groups'') \<noteq> js ''users''" by code_simp
  then have "app m (js ''groups'' # rest) = None" by (simp add: app_def)
  then show ?thesis by (simp add: serve_def)
qed

section \<open>Delete\<close>



section \<open>Storage faults\<close>

text \<open>
  C7, as the code has it. When the storage layer fails during a request, only List lets
  the fault go: its promise is rejected and no response is sent. Create, Get, Update
  and Delete catch whatever the storage call raises and answer 400; none answers 404.
  A request that fails validation or a cast before the storage layer is called is
  answered 400 as without the fault.
\<close>

theorem storage_fault_handling:
  "list_users (Some m) st = (Unhandled (StorageFault m), st)
   \<and> post_user (Some m) g st bid p =
       (Resp 400 (ErrorOf (if id_errors bid @ validate p = [] then StorageFault m
                           else ValidationError (id_errors bid @ validate p))), st)
   \<and> get_user (Some m) st s = (Resp 400 (ErrorBody ''Invalid user ID''), st)
   \<and> put_user (Some m) st s p =
       (Resp 400 (ErrorOf (case cast_id s of
                             None \<Rightarrow> CastError s
                           | Some i \<Rightarrow> if validate_update p = [] then StorageFault m
                                       else ValidationError (validate_update p))), st)
   \<and> delete_user (Some m) st s = (Resp 400 (ErrorBody ''Invalid user ID''), st)"
  by (simp add: list_users_def find_all_def post_user_fault get_user_fault delete_user_fault
      put_user_def findByIdAndUpdate_def split: option.splits)

text \<open>
  C7 as stated fails: a Get of a stored, well-formed identifier during a storage fault
  is answered 400 with the text for a malformed identifier; the fault does not
  propagate.
\<close>

theorem storage_fault_counterexample:
  "cast_id oid0 = Some 0 \<and> lookup 0 (docs store1) = Some john_doc
   \<and> get_user (Some ''connection lost'') store1 oid0
       = (Resp 400 (ErrorBody ''Invalid user ID''), store1)
   \<and> fst (get_user (Some ''connection lost'') store1 oid0)
       \<noteq> Unhandled (StorageFault ''connection lost'')"
  by code_simp

section \<open>Partial updates\<close>

text \<open>
  C8, as the code has it. Update of a stored document with a payload that carries only
  a username, with the storage layer answering: the stored email, password and
  identifier stay as they are whatever the username; when the username has 3 to 50 code
  units the response is 200 with the merged document (new username, old email, old
  password, same identifier), which replaces the stored one; otherwise the response is
  400 with the validation error of the username and the store is left as it is.
\<close>

theorem update_username_only:
  assumes "cast_id s = Some i" and "lookup i (docs st) = Some d"
  shows "(3 \<le> length u \<and> length u \<le> 50 \<longrightarrow>
            put_user None st s (only_username u) =
              (Resp 200 (UserDoc (d\<lparr>username := u\<rparr>)),
               st\<lparr>docs := replace_first i (d\<lparr>username := u\<rparr>) (docs st)\<rparr>))
       \<and> (\<not> (3 \<le> length u \<and> length u \<le> 50) \<longrightarrow>
            put_user None st s (only_username u) =
              (Resp 400
                 (ErrorOf (ValidationError
                    [(Username, if u = [] then Required
                                else if length u < 3 then MinLength else MaxLength)])),
               st))
       \<and> (\<exists>d'. lookup i (docs (snd (put_user None st s (only_username u)))) = Some d'
             \<and> email d' = email d \<and> password d' = password d \<and> uid d' = uid d)"
proof -
  have m: "merge_fields d (only_username u) = d\<lparr>username := u\<rparr>"
    by (simp add: merge_fields_def only_username_def)
  have c: "\<not> update_conflict i (only_username u) (docs st)"
    by (simp add: update_conflict_def only_username_def)
  have v: "validate_update (only_username u) = [] \<longleftrightarrow> 3 \<le> length u \<and> length u \<le> 50"
    by (simp add: validate_update_Nil_iff supplied_rules_ok_def only_username_def)
  have i: "uid d = i" using assms(2) lookup_Some by simp
  show ?thesis
  proof (cases "3 \<le> length u \<and> length u \<le> 50")
    case True
    have "put_user None st s (only_username u) =
              (Resp 200 (UserDoc (d\<lparr>username := u\<rparr>)),
               st\<lparr>docs := replace_first i (d\<lparr>username := u\<rparr>) (docs st)\<rparr>)"
      using True assms c v m by (simp add: put_user_ok)
    moreover have "lookup i (replace_first i (d\<lparr>username := u\<rparr>) (docs st))
                     = Some (d\<lparr>username := u\<rparr>)"
      using assms(2) i by (simp add: lookup_replace_first)
    ultimately show ?thesis using True by simp
  next
    case False
    then have "validate_update (only_username u) \<noteq> []" using v by simp
    then have "put_user None st s (only_username u) =
                 (Resp 400 (ErrorOf (ValidationError (validate_update (only_username u)))), st)"
      using assms by (simp add: put_user_ok)
    moreover have "validate_update (only_username u) =
                     [(Username, if u = [] then Required
                                 else if length u < 3 then MinLength else MaxLength)]"
      using False
      by (auto simp: validate_update_def validate_set_def only_username_def validate_path_def
          userSchema_def required_ok_def minlength_ok_def maxlength_ok_def)
    ultimately show ?thesis using False assms(2) by simp
  qed
qed

theorem update_username_only_witness:
  "cast_id oid0 = Some 0 \<and> lookup 0 (docs store1) = Some john_doc
   \<and> put_user None store1 oid0 (only_username (js ''updated_name''))
       = (Resp 200 (UserDoc (john_doc\<lparr>username := js ''updated_name''\<rparr>)),
          store1\<lparr>docs := [john_doc\<lparr>username := js ''updated_name''\<rparr>]\<rparr>)
   \<and> put_user None store1 oid0 (only_username [])
       = (Resp 400 (ErrorOf (ValidationError [(Username, Required)])), store1)"
proof -
  have a: "cast_id oid0 = Some 0" by code_simp
  have b: "lookup 0 (docs store1) = Some john_doc" by code_simp
  have c: "replace_first 0 (john_doc\<lparr>username := js ''updated_name''\<rparr>) (docs store1)
             = [john_doc\<lparr>username := js ''updated_name''\<rparr>]"
    by code_simp
  have d: "length (js ''updated_name'') = 12" by (simp add: js_def)
  show ?thesis
    using a b update_username_only [OF a b, of "js ''updated_name''"]
      update_username_only [OF a b, of "[]"]
    by (simp add: c d)
qed

text \<open>
  C8 as stated fails: a username of two code units is refused, and the response is the
  validation error, not the merged document.
\<close>

theorem update_username_only_counterexample:
  "cast_id oid0 = Some 0 \<and> lookup 0 (docs store1) = Some john_doc
   \<and> put_user None store1 oid0 (only_username (js ''ab''))
       = (Resp 400 (ErrorOf (ValidationError [(Username, MinLength)])), store1)
   \<and> fst (put_user None store1 oid0 (only_username (js ''ab'')))
       \<noteq> Resp 200 (UserDoc (john_doc\<lparr>username := js ''ab''\<rparr>))"
  by code_simp

section \<open>Response bodies\<close>

text \<open>
  C9. Every response that carries user documents carries stored documents as they are:
  the document of a Create (201), Get (200) or Update (200) response is a document of
  the store after the request, the list of a List response (200) is the whole
  collection, and the password of a created or updated document is the string the
  payload supplied.
\<close>

theorem responses_carry_stored_documents:
  "(post_user flt g st bid p = (Resp n (UserDoc u), st') \<longrightarrow>
      n = 201 \<and> u \<in> set (docs st') \<and> p_password p = Some (password u))
   \<and> (list_users flt st = (Resp n (UserList us), st') \<longrightarrow> n = 200 \<and> us = docs st')
   \<and> (get_user flt st s = (Resp n (UserDoc u), st') \<longrightarrow> n = 200 \<and> u \<in> set (docs st'))
   \<and> (put_user flt st s p = (Resp n (UserDoc u), st') \<longrightarrow>
        n = 200 \<and> u \<in> set (docs st') \<and> (\<forall>w. p_password p = Some w \<longrightarrow> password u = w))"
proof (intro conjI impI)
  assume a: "post_user flt g st bid p = (Resp n (UserDoc u), st')"
  then have "flt = None" by (cases flt) (auto simp: post_user_fault split: if_splits)
  then have r: "validate p = []" "n = 201" "u = new_user (new_id g bid) p"
    "u \<in> set (docs st')"
    using a by (auto simp: post_user_ok split: if_splits)
  then have "fields_of u = p"
    by (simp add: fields_of_new_user validate_Nil_iff [symmetric])
  then have "p_password p = Some (password u)"
    by (auto simp: fields_of_def dest: arg_cong [where f = p_password])
  then show "n = 201" "u \<in> set (docs st')" "p_password p = Some (password u)"
    using r(2,4) by - assumption+
next
  assume "list_users flt st = (Resp n (UserList us), st')"
  then show "n = 200" "us = docs st'"
    by (auto simp: list_users_def find_all_def split: option.splits)
next
  assume a: "get_user flt st s = (Resp n (UserDoc u), st')"
  then have "flt = None" by (cases flt) (auto simp: get_user_fault)
  then show "n = 200" "u \<in> set (docs st')"
    using a lookup_Some by (auto simp: get_user_ok split: option.splits)
next
  assume a: "put_user flt st s p = (Resp n (UserDoc u), st')"
  have f: "flt = None"
  proof (cases flt)
    case (Some m)
    obtain b where "put_user (Some m) st s p = (Resp 400 b, st)" using put_user_fault by blast
    moreover have "\<forall>e. put_user (Some m) st s p \<noteq> (Resp 200 (UserDoc e), st)"
      by (simp add: put_user_def findByIdAndUpdate_def split: option.splits)
    moreover have "\<forall>e. put_user (Some m) st s p \<noteq> (Resp 400 (UserDoc e), st)"
      by (simp add: put_user_def findByIdAndUpdate_def split: option.splits)
    ultimately show ?thesis using a Some by auto
  qed simp
  then obtain i d where r: "lookup i (docs st) = Some d" "u = merge_fields d p"
    "st' = st\<lparr>docs := replace_first i (merge_fields d p) (docs st)\<rparr>" "n = 200"
    using a by (auto simp: put_user_ok split: option.splits if_splits)
  show "n = 200" by (rule r(4))
  show "u \<in> set (docs st')" using r by (simp add: mem_replace_first)
  show "\<forall>w. p_password p = Some w \<longrightarrow> password u = w"
    using r(2) by (simp add: merge_fields_def)
qed

theorem responses_carry_stored_documents_witness:
  "post_user None 1 store1 None jane = (Resp 201 (UserDoc jane_doc), store2)
   \<and> jane_doc \<in> set (docs store2) \<and> p_password jane = Some (password jane_doc)
   \<and> password jane_doc = js ''hunter22''
   \<and> list_users None store2 = (Resp 200 (UserList [john_doc, jane_doc]), store2)
   \<and> get_user None store2 oid0 = (Resp 200 (UserDoc john_doc), store2)
   \<and> john_doc \<in> set (docs store2)
   \<and> put_user None store1 oid0 (empty_payload\<lparr>p_password := Some (js ''newsecret'')\<rparr>)
       = (Resp 200 (UserDoc (john_doc\<lparr>password := js ''newsecret''\<rparr>)),
          store1\<lparr>docs := [john_doc\<lparr>password := js ''newsecret''\<rparr>]\<rparr>)
   \<and> password (john_doc\<lparr>password := js ''newsecret''\<rparr>) = js ''newsecret''"
proof -
  have a: "post_user None 1 store1 None jane = (Resp 201 (UserDoc jane_doc), store2)"
    by code_simp
  have b: "list_users None store2 = (Resp 200 (UserList [john_doc, jane_doc]), store2)"
    by code_simp
  have c: "get_user None store2 oid0 = (Resp 200 (UserDoc john_doc), store2)" by code_simp
  have d: "put_user None store1 oid0 (empty_payload\<lparr>p_password := Some (js ''newsecret'')\<rparr>)
       = (Resp 200 (UserDoc (john_doc\<lparr>password := js ''newsecret''\<rparr>)),
          store1\<lparr>docs := [john_doc\<lparr>password := js ''newsecret''\<rparr>]\<rparr>)"
    by code_simp
  have e: "password jane_doc = js ''hunter22''" by (simp add: jane_doc_def)
  have f: "jane_doc \<in> set (docs store2) \<and> p_password jane = Some (password jane_doc)"
    using a responses_carry_stored_documents [of None 1 store1 None jane 201 jane_doc store2] by simp
  have g: "john_doc \<in> set (docs store2)"
    using c responses_carry_stored_documents [of None _ store2 _ _ 200 john_doc store2 _ oid0]
    by simp
  show ?thesis using a b c d e f g by simp
qed

section \<open>Updates that omit fields\<close>

text \<open>
  C10, as the code has it. Update of a stored document on any store, with the storage
  layer answering. An empty payload gives 200 with the stored document and changes
  nothing. A payload whose supplied fields satisfy the rules of their own paths, and
  whose email (when supplied) no other document holds, gives 200 with the merged
  document, in which every omitted field has its stored value. Otherwise the response
  is 400. The validation errors are those of supplied fields only: no rule fires on an
  absent field, whatever the stored document holds there.
\<close>

theorem update_partial:
  assumes "cast_id s = Some i" and "lookup i (docs st) = Some d"
  shows "put_user None st s empty_payload = (Resp 200 (UserDoc d), st)
       \<and> (supplied_rules_ok p \<and> \<not> update_conflict i p (docs st) \<longrightarrow>
            put_user None st s p =
              (Resp 200 (UserDoc (merge_fields d p)),
               st\<lparr>docs := replace_first i (merge_fields d p) (docs st)\<rparr>))
       \<and> (\<not> (supplied_rules_ok p \<and> \<not> update_conflict i p (docs st)) \<longrightarrow>
            (\<exists>e. put_user None st s p = (Resp 400 (ErrorOf e), st)))
       \<and> (\<not> supplied_rules_ok p \<longrightarrow>
            put_user None st s p
              = (Resp 400 (ErrorOf (ValidationError (validate_update p))), st))
       \<and> (\<forall>fr \<in> set (validate_update p). supplied p (fst fr))
       \<and> (\<not> supplied p Username \<longrightarrow> username (merge_fields d p) = username d)
       \<and> (\<not> supplied p Email \<longrightarrow> email (merge_fields d p) = email d)
       \<and> (\<not> supplied p Password \<longrightarrow> password (merge_fields d p) = password d)"
proof -
  have e: "put_user None st s empty_payload = (Resp 200 (UserDoc d), st)"
  proof -
    have "merge_fields d empty_payload = d"
      by (simp add: merge_fields_def empty_payload_def)
    moreover have "validate_update empty_payload = []"
      by (simp add: validate_update_def validate_set_def empty_payload_def)
    moreover have "\<not> update_conflict i empty_payload (docs st)"
      by (simp add: update_conflict_def empty_payload_def)
    ultimately show ?thesis
      using assms by (simp add: put_user_ok replace_first_same)
  qed
  have f: "\<forall>fr \<in> set (validate_update p). supplied p (fst fr)"
    using validate_update_supplied by auto
  have g: "(\<not> supplied p Username \<longrightarrow> username (merge_fields d p) = username d)
       \<and> (\<not> supplied p Email \<longrightarrow> email (merge_fields d p) = email d)
       \<and> (\<not> supplied p Password \<longrightarrow> password (merge_fields d p) = password d)"
    by (simp add: supplied_def merge_fields_def)
  have h: "supplied_rules_ok p \<and> \<not> update_conflict i p (docs st) \<longrightarrow>
            put_user None st s p =
              (Resp 200 (UserDoc (merge_fields d p)),
               st\<lparr>docs := replace_first i (merge_fields d p) (docs st)\<rparr>)"
    using assms by (simp add: put_user_ok validate_update_Nil_iff)
  have k: "\<not> (supplied_rules_ok p \<and> \<not> update_conflict i p (docs st)) \<longrightarrow>
            (\<exists>e. put_user None st s p = (Resp 400 (ErrorOf e), st))"
    using assms by (auto simp: put_user_ok validate_update_Nil_iff)
  have l: "\<not> supplied_rules_ok p \<longrightarrow>
            put_user None st s p
              = (Resp 400 (ErrorOf (ValidationError (validate_update p))), st)"
    using assms by (simp add: put_user_ok validate_update_Nil_iff)
  show ?thesis using e f g h k l by blast
qed

theorem update_partial_witness:
  "cast_id oid0 = Some 0 \<and> lookup 0 (docs store1) = Some john_doc
   \<and> put_user None store1 oid0 empty_payload = (Resp 200 (UserDoc john_doc), store1)
   \<and> supplied_rules_ok (empty_payload\<lparr>p_password := Some (js ''newsecret'')\<rparr>)
   \<and> \<not> update_conflict 0 (empty_payload\<lparr>p_password := Some (js ''newsecret'')\<rparr>)
         (docs store1)
   \<and> \<not> supplied (empty_payload\<lparr>p_password := Some (js ''newsecret'')\<rparr>) Username
   \<and> \<not> supplied (empty_payload\<lparr>p_password := Some (js ''newsecret'')\<rparr>) Email
   \<and> put_user None store1 oid0 (empty_payload\<lparr>p_password := Some (js ''newsecret'')\<rparr>)
       = (Resp 200 (UserDoc (john_doc\<lparr>password := js ''newsecret''\<rparr>)),
          store1\<lparr>docs := [john_doc\<lparr>password := js ''newsecret''\<rparr>]\<rparr>)
   \<and> \<not> supplied_rules_ok (empty_payload\<lparr>p_password := Some (js ''123'')\<rparr>)
   \<and> validate_update (empty_payload\<lparr>p_password := Some (js ''123'')\<rparr>)
       = [(Password, MinLength)]
   \<and> supplied (empty_payload\<lparr>p_password := Some (js ''123'')\<rparr>) Password
   \<and> put_user None store1 oid0 (empty_payload\<lparr>p_password := Some (js ''123'')\<rparr>)
       = (Resp 400 (ErrorOf (ValidationError [(Password, MinLength)])), store1)"
proof -
  have a: "cast_id oid0 = Some 0" by code_simp
  have b: "lookup 0 (docs store1) = Some john_doc" by code_simp
  have c: "supplied_rules_ok (empty_payload\<lparr>p_password := Some (js ''newsecret'')\<rparr>)"
    by code_simp
  have d: "\<not> update_conflict 0 (empty_payload\<lparr>p_password := Some (js ''newsecret'')\<rparr>)
         (docs store1)"
    by code_simp
  have e: "\<not> supplied (empty_payload\<lparr>p_password := Some (js ''newsecret'')\<rparr>) Username"
    "\<not> supplied (empty_payload\<lparr>p_password := Some (js ''newsecret'')\<rparr>) Email"
    "supplied (empty_payload\<lparr>p_password := Some (js ''123'')\<rparr>) Password"
    by (simp_all add: supplied_def empty_payload_def)
  have f: "put_user None store1 oid0 (empty_payload\<lparr>p_password := Some (js ''newsecret'')\<rparr>)
       = (Resp 200 (UserDoc (john_doc\<lparr>password := js ''newsecret''\<rparr>)),
          store1\<lparr>docs := [john_doc\<lparr>password := js ''newsecret''\<rparr>]\<rparr>)"
    by code_simp
  have g: "\<not> supplied_rules_ok (empty_payload\<lparr>p_password := Some (js ''123'')\<rparr>)"
    by code_simp
  have h: "validate_update (empty_payload\<lparr>p_password := Some (js ''123'')\<rparr>)
       = [(Password, MinLength)]"
    by code_simp
  note t = update_partial [OF a b]
  have k: "put_user None store1 oid0 empty_payload = (Resp 200 (UserDoc john_doc), store1)"
    using t [of empty_payload] by simp
  have l: "put_user None store1 oid0 (empty_payload\<lparr>p_password := Some (js ''123'')\<rparr>)
       = (Resp 400 (ErrorOf (ValidationError [(Password, MinLength)])), store1)"
    using t [of "empty_payload\<lparr>p_password := Some (js ''123'')\<rparr>"] g h by simp
  show ?thesis
    using a b c d e f g h k l t [of "empty_payload\<lparr>p_password := Some (js ''newsecret'')\<rparr>"]
    by - (intro conjI; assumption)
qed

text \<open>
  C10 as stated fails: a payload that omits the username and the password but supplies
  an email that does not match the pattern is refused with 400.
\<close>

theorem update_partial_counterexample:
  "cast_id oid0 = Some 0 \<and> lookup 0 (docs store1) = Some john_doc
   \<and> \<not> supplied (empty_payload\<lparr>p_email := Some (js ''invalid'')\<rparr>) Username
   \<and> \<not> supplied (empty_payload\<lparr>p_email := Some (js ''invalid'')\<rparr>) Password
   \<and> put_user None store1 oid0 (empty_payload\<lparr>p_email := Some (js ''invalid'')\<rparr>)
       = (Resp 400 (ErrorOf (ValidationError [(Email, Match)])), store1)
   \<and> status (fst (put_user None store1 oid0 (empty_payload\<lparr>p_email := Some (js ''invalid'')\<rparr>)))
       \<noteq> Some 200"
  by code_simp

end
